theory Spec2Isabelle
  imports Complex_Main
begin

section \<open>The PubMed RCT dataset reader (\<^verbatim>\<open>pubmed_rct.py\<close>)\<close>

text \<open>
  The module defines one class, \<^verbatim>\<open>PubmedRCTReader\<close>, with four methods:
  \<^verbatim>\<open>__init__\<close>, \<^verbatim>\<open>_read\<close>, \<^verbatim>\<open>text_to_instance\<close> and \<^verbatim>\<open>from_params\<close>.
  Python is dynamically typed, so the values that flow from \<^verbatim>\<open>json.loads\<close> into
  \<^verbatim>\<open>text_to_instance\<close> are modelled by a datatype of Python values, and every
  exception the code can raise is a value of the type \<open>error\<close>.
\<close>

subsection \<open>Python values and exceptions\<close>

text \<open>
  The values \<^verbatim>\<open>json.loads\<close> can return. A \<^verbatim>\<open>dict\<close> is an association list with
  distinct keys, in insertion order (the order in which Python iterates it).
  A \<open>char\<close> of a \<^verbatim>\<open>str\<close> stands for one character of the Python string.
\<close>

datatype pyval =
    PyNone
  | PyBool bool
  | PyInt int
  | PyFloat real
  | PyStr string
  | PyList "pyval list"
  | PyDict "(string \<times> pyval) list"

datatype error =
    JSONDecodeError
  | KeyError string
  | TypeError
  | ConfigurationError
  | OSError string

text \<open>Truth value testing, as the \<^verbatim>\<open>if label:\<close> of \<^verbatim>\<open>text_to_instance\<close> does it.\<close>

fun truthy :: "pyval \<Rightarrow> bool" where
  "truthy PyNone = False"
| "truthy (PyBool b) = b"
| "truthy (PyInt i) = (i \<noteq> 0)"
| "truthy (PyFloat x) = (x \<noteq> 0)"
| "truthy (PyStr s) = (s \<noteq> [])"
| "truthy (PyList xs) = (xs \<noteq> [])"
| "truthy (PyDict kvs) = (kvs \<noteq> [])"

text \<open>
  Iteration (\<^verbatim>\<open>for t in sent\<close>): a list gives its elements, a string its characters,
  a dictionary its keys; the other values are not iterable and raise \<^verbatim>\<open>TypeError\<close>.
\<close>

fun py_iter :: "pyval \<Rightarrow> error + pyval list" where
  "py_iter (PyList xs) = Inr xs"
| "py_iter (PyStr s) = Inr (map (\<lambda>c. PyStr [c]) s)"
| "py_iter (PyDict kvs) = Inr (map (\<lambda>kv. PyStr (fst kv)) kvs)"
| "py_iter PyNone = Inl TypeError"
| "py_iter (PyBool b) = Inl TypeError"
| "py_iter (PyInt i) = Inl TypeError"
| "py_iter (PyFloat x) = Inl TypeError"

text \<open>
  Subscription with a string key (\<^verbatim>\<open>example["label"]\<close>): a dictionary without the key
  raises \<^verbatim>\<open>KeyError\<close>, any other value raises \<^verbatim>\<open>TypeError\<close>.
\<close>

fun getitem :: "pyval \<Rightarrow> string \<Rightarrow> error + pyval" where
  "getitem (PyDict kvs) k = (case map_of kvs k of None \<Rightarrow> Inl (KeyError k) | Some v \<Rightarrow> Inr v)"
| "getitem PyNone k = Inl TypeError"
| "getitem (PyBool b) k = Inl TypeError"
| "getitem (PyInt i) k = Inl TypeError"
| "getitem (PyFloat x) k = Inl TypeError"
| "getitem (PyStr s) k = Inl TypeError"
| "getitem (PyList xs) k = Inl TypeError"

subsection \<open>The host framework's objects\<close>

text \<open>
  Modelled from the spec: the tokenizer and the token indexers are injected collaborators
  of the host framework, opaque to the reader: the defaults that the constructor creates,
  and any other one, identified by a name.
\<close>

datatype tokenizer = WordTokenizer | OtherTokenizer string

datatype token_indexer = SingleIdTokenIndexer | OtherTokenIndexer string

text \<open>
  Modelled from the spec: a token wraps one unit of text (\<^verbatim>\<open>Token(t)\<close> stores its argument
  as the token's text, whatever it is); a text field holds a list of tokens and the
  indexers it is built against; a label field holds a label; an instance is a container
  of named fields.
\<close>

datatype token = Token (token_text: pyval)

datatype field =
    TextField (tokens: "token list") (indexers: "(string \<times> token_indexer) list")
  | LabelField string

datatype "instance" = Instance (fields_of: "string \<rightharpoonup> field")

text \<open>
  The label of a label field is a string: the constructor of the framework's class
  \<^verbatim>\<open>LabelField\<close> raises a configuration error when it is given any other value.
\<close>

fun new_LabelField :: "pyval \<Rightarrow> error + field" where
  "new_LabelField (PyStr s) = Inr (LabelField s)"
| "new_LabelField PyNone = Inl ConfigurationError"
| "new_LabelField (PyBool b) = Inl ConfigurationError"
| "new_LabelField (PyInt i) = Inl ConfigurationError"
| "new_LabelField (PyFloat x) = Inl ConfigurationError"
| "new_LabelField (PyList xs) = Inl ConfigurationError"
| "new_LabelField (PyDict kvs) = Inl ConfigurationError"

subsection \<open>The reader\<close>

record reader =
  lazy :: bool
  tokenizer :: tokenizer
  token_indexers :: "(string \<times> token_indexer) list"

text \<open>
  \<^verbatim>\<open>__init__\<close>: \<^verbatim>\<open>tokenizer or WordTokenizer()\<close> replaces \<^verbatim>\<open>None\<close> by the default;
  \<^verbatim>\<open>token_indexers or {'tokens': SingleIdTokenIndexer()}\<close> replaces \<^verbatim>\<open>None\<close> and the
  empty dictionary, both false.
\<close>

definition init :: "tokenizer option \<Rightarrow> (string \<times> token_indexer) list option \<Rightarrow> bool \<Rightarrow> reader" where
  "init tok idx lz =
     \<lparr> lazy = lz,
       tokenizer = (case tok of None \<Rightarrow> WordTokenizer | Some t \<Rightarrow> t),
       token_indexers =
         (case idx of
            None \<Rightarrow> [(''tokens'', SingleIdTokenIndexer)]
          | Some d \<Rightarrow> if d = [] then [(''tokens'', SingleIdTokenIndexer)] else d) \<rparr>"

text \<open>
  \<^verbatim>\<open>text_to_instance(self, sent, pos, label=None)\<close>. The two comprehensions run
  first, then the two text fields are stored, then the label field when the label
  is true.
\<close>

definition text_to_instance :: "reader \<Rightarrow> pyval \<Rightarrow> pyval \<Rightarrow> pyval \<Rightarrow> error + instance" where
  "text_to_instance self sent pos label =
     (case py_iter sent of
        Inl e \<Rightarrow> Inl e
      | Inr ts \<Rightarrow>
          (case py_iter pos of
             Inl e \<Rightarrow> Inl e
           | Inr ps \<Rightarrow>
               (let sent_tokens = map Token ts;
                    pos_tokens = map Token ps;
                    flds = Map.empty(''sentence'' \<mapsto> TextField sent_tokens (token_indexers self));
                    flds = flds(''pos'' \<mapsto> TextField pos_tokens (token_indexers self))
                in if truthy label
                   then (case new_LabelField label of
                           Inl e \<Rightarrow> Inl e
                         | Inr f \<Rightarrow> Inr (Instance (flds(''label'' \<mapsto> f))))
                   else Inr (Instance flds))))"

text \<open>
  The arguments the signature of \<^verbatim>\<open>text_to_instance\<close> declares: lists of strings, and
  a label that is a string or \<^verbatim>\<open>None\<close> (the default).
\<close>

definition str_list :: "string list \<Rightarrow> pyval" where
  "str_list ss = PyList (map PyStr ss)"

fun opt_str :: "string option \<Rightarrow> pyval" where
  "opt_str None = PyNone"
| "opt_str (Some s) = PyStr s"

subsection \<open>Reading a file\<close>

text \<open>
  What \<^verbatim>\<open>_read\<close> calls outside the module: \<^verbatim>\<open>cached_path\<close>, which resolves the source
  to a local path, \<^verbatim>\<open>open(file_path, 'r')\<close> with the iteration over the file, which
  gives the lines of the file in order, each with its line terminator, and
  \<^verbatim>\<open>json.loads\<close>. Each of them returns or raises.
\<close>

record host =
  cached_path :: "string \<Rightarrow> error + string"
  open_file :: "string \<Rightarrow> error + string list"
  json_loads :: "string \<Rightarrow> error + pyval"

text \<open>
  An empty line of a text file is its line terminator alone: the iteration over a file
  opened in text mode gives it as the string \<^verbatim>\<open>"\n"\<close>.
\<close>

definition line_empty :: string where
  "line_empty = [CHR 0x0A]"

text \<open>The body of the loop of \<^verbatim>\<open>_read\<close>, for one line: the instance it yields, or the exception.\<close>

definition read_line :: "host \<Rightarrow> reader \<Rightarrow> string \<Rightarrow> error + instance" where
  "read_line h self line =
     (case json_loads h line of
        Inl e \<Rightarrow> Inl e
      | Inr example \<Rightarrow>
          (case getitem example ''label'' of
             Inl e \<Rightarrow> Inl e
           | Inr label \<Rightarrow>
               (case getitem example ''sentence'' of
                  Inl e \<Rightarrow> Inl e
                | Inr sent \<Rightarrow>
                    (case getitem example ''pos'' of
                       Inl e \<Rightarrow> Inl e
                     | Inr pos \<Rightarrow> text_to_instance self sent pos label))))"

text \<open>
  \<^verbatim>\<open>_read\<close> is a generator. Its run is the list of the instances it yields, in order,
  and the way it ends: \<open>None\<close> when the lines are exhausted, \<open>Some e\<close> when the
  exception \<open>e\<close> leaves the generator. Nothing in \<^verbatim>\<open>_read\<close> catches an exception.
\<close>

fun read_lines :: "host \<Rightarrow> reader \<Rightarrow> string list \<Rightarrow> instance list \<times> error option" where
  "read_lines h self [] = ([], None)"
| "read_lines h self (line # rest) =
     (case read_line h self line of
        Inl e \<Rightarrow> ([], Some e)
      | Inr inst \<Rightarrow> (case read_lines h self rest of (insts, r) \<Rightarrow> (inst # insts, r)))"

text \<open>The method \<^verbatim>\<open>_read\<close> (an Isabelle name cannot start with an underscore).\<close>

definition read :: "host \<Rightarrow> reader \<Rightarrow> string \<Rightarrow> instance list \<times> error option" where
  "read h self file_path =
     (case cached_path h file_path of
        Inl e \<Rightarrow> ([], Some e)
      | Inr p \<Rightarrow>
          (case open_file h p of
             Inl e \<Rightarrow> ([], Some e)
           | Inr ls \<Rightarrow> read_lines h self ls))"

subsection \<open>Construction from configuration\<close>





subsection \<open>Well-formed records and the shape of an instance\<close>

text \<open>
  A well-formed record: a dictionary in which \<^verbatim>\<open>label\<close> is a string and \<^verbatim>\<open>sentence\<close>
  and \<^verbatim>\<open>pos\<close> are lists of strings. Other keys, such as \<^verbatim>\<open>sentence_text\<close>, may be there.
\<close>

fun is_str :: "pyval \<Rightarrow> bool" where
  "is_str (PyStr s) = True"
| "is_str v = False"

fun is_str_list :: "pyval \<Rightarrow> bool" where
  "is_str_list (PyList xs) = list_all is_str xs"
| "is_str_list v = False"

fun well_formed :: "pyval \<Rightarrow> bool" where
  "well_formed (PyDict kvs) =
     (case (map_of kvs ''label'', map_of kvs ''sentence'', map_of kvs ''pos'') of
        (Some l, Some s, Some p) \<Rightarrow> is_str l \<and> is_str_list s \<and> is_str_list p
      | _ \<Rightarrow> False)"
| "well_formed v = False"

text \<open>
  An instance has the fields \<^verbatim>\<open>sentence\<close> and \<^verbatim>\<open>pos\<close>, both text fields over the
  token indexers of the reader, and at most the field \<^verbatim>\<open>label\<close> besides.
\<close>

fun is_text_field_over :: "(string \<times> token_indexer) list \<Rightarrow> field option \<Rightarrow> bool" where
  "is_text_field_over idx (Some (TextField ts idx')) = (idx' = idx)"
| "is_text_field_over idx (Some (LabelField s)) = False"
| "is_text_field_over idx None = False"

definition instance_shape :: "reader \<Rightarrow> instance \<Rightarrow> bool" where
  "instance_shape self inst =
     (is_text_field_over (token_indexers self) (fields_of inst ''sentence'') \<and>
      is_text_field_over (token_indexers self) (fields_of inst ''pos'') \<and>
      dom (fields_of inst) \<subseteq> {''sentence'', ''pos'', ''label''})"

subsection \<open>A sample host\<close>

text \<open>
  Lines of a corpus, the values \<^verbatim>\<open>json.loads\<close> returns on them, and files made of them.
  A line the table does not list is one that \<^verbatim>\<open>json.loads\<close> rejects: so are the empty
  line and the line that stops in the middle of an array.
\<close>

definition line_methods :: string where
  \<open>line_methods = ''{"label": "METHODS", "sentence": ["we", "used", "survey", "."], "pos": ["PRP", "VBD", "NN", "."], "sentence_text": "We used survey."}'' @ [CHR 0x0A]\<close>

definition line_unlabelled :: string where
  \<open>line_unlabelled = ''{"label": "", "sentence": ["it", "works"], "pos": ["PRP", "VBZ"]}'' @ [CHR 0x0A]\<close>

definition line_no_pos :: string where
  \<open>line_no_pos = ''{"label": "RESULTS", "sentence": ["it", "works"]}'' @ [CHR 0x0A]\<close>

definition line_no_label :: string where
  \<open>line_no_label = ''{"sentence": ["it", "works"], "pos": ["PRP", "VBZ"]}'' @ [CHR 0x0A]\<close>

definition line_truncated :: string where
  \<open>line_truncated = ''{"label": "RESULTS", "sentence": ["it", '' @ [CHR 0x0A]\<close>

definition record_methods :: pyval where
  "record_methods = PyDict
     [(''label'', PyStr ''METHODS''),
      (''sentence'', PyList [PyStr ''we'', PyStr ''used'', PyStr ''survey'', PyStr ''.'']),
      (''pos'', PyList [PyStr ''PRP'', PyStr ''VBD'', PyStr ''NN'', PyStr ''.'']),
      (''sentence_text'', PyStr ''We used survey.'')]"

definition record_unlabelled :: pyval where
  "record_unlabelled = PyDict
     [(''label'', PyStr []),
      (''sentence'', PyList [PyStr ''it'', PyStr ''works'']),
      (''pos'', PyList [PyStr ''PRP'', PyStr ''VBZ''])]"

definition record_no_pos :: pyval where
  "record_no_pos = PyDict
     [(''label'', PyStr ''RESULTS''),
      (''sentence'', PyList [PyStr ''it'', PyStr ''works''])]"

definition record_no_label :: pyval where
  "record_no_label = PyDict
     [(''sentence'', PyList [PyStr ''it'', PyStr ''works'']),
      (''pos'', PyList [PyStr ''PRP'', PyStr ''VBZ''])]"

definition sample_loads :: "string \<Rightarrow> error + pyval" where
  "sample_loads s =
     (if s = line_methods then Inr record_methods
      else if s = line_unlabelled then Inr record_unlabelled
      else if s = line_no_pos then Inr record_no_pos
      else if s = line_no_label then Inr record_no_label
      else Inl JSONDecodeError)"

definition sample_open :: "string \<Rightarrow> error + string list" where
  "sample_open p =
     (if p = ''train.jsonl'' then Inr [line_methods, line_unlabelled]
      else if p = ''blank.jsonl'' then Inr [line_methods, line_empty, line_unlabelled]
      else if p = ''no_pos.jsonl'' then Inr [line_methods, line_no_pos, line_unlabelled]
      else if p = ''no_label.jsonl'' then Inr [line_methods, line_unlabelled, line_no_label]
      else if p = ''truncated.jsonl'' then Inr [line_methods, line_truncated, line_unlabelled]
      else if p = ''no_pos_truncated.jsonl'' then Inr [line_no_pos, line_truncated]
      else if p = ''truncated_no_pos.jsonl'' then Inr [line_truncated, line_no_pos]
      else Inl (OSError p))"

definition sample_host :: host where
  "sample_host = \<lparr> cached_path = Inr, open_file = sample_open, json_loads = sample_loads \<rparr>"




text \<open>The instances of the two well-formed sample lines, for a reader with the default indexers.\<close>

definition instance_methods :: "instance" where
  "instance_methods = Instance
     [''sentence'' \<mapsto> TextField [Token (PyStr ''we''), Token (PyStr ''used''), Token (PyStr ''survey''), Token (PyStr ''.'')]
                        [(''tokens'', SingleIdTokenIndexer)],
      ''pos'' \<mapsto> TextField [Token (PyStr ''PRP''), Token (PyStr ''VBD''), Token (PyStr ''NN''), Token (PyStr ''.'')]
                   [(''tokens'', SingleIdTokenIndexer)],
      ''label'' \<mapsto> LabelField ''METHODS'']"

definition instance_unlabelled :: "instance" where
  "instance_unlabelled = Instance
     [''sentence'' \<mapsto> TextField [Token (PyStr ''it''), Token (PyStr ''works'')] [(''tokens'', SingleIdTokenIndexer)],
      ''pos'' \<mapsto> TextField [Token (PyStr ''PRP''), Token (PyStr ''VBZ'')] [(''tokens'', SingleIdTokenIndexer)]]"

section \<open>The conversion \<^verbatim>\<open>text_to_instance\<close>\<close>

text \<open>
  The result on two lists and a label that is a string or \<^verbatim>\<open>None\<close>: without a label
  field when the label is \<^verbatim>\<open>None\<close> or the empty string, with one when it is a non-empty
  string.
\<close>

lemma text_to_instance_unlabelled:
  assumes "l = None \<or> l = Some []"
  shows "text_to_instance self (PyList xs) (PyList ys) (opt_str l) =
     Inr (Instance
       [''sentence'' \<mapsto> TextField (map Token xs) (token_indexers self),
        ''pos'' \<mapsto> TextField (map Token ys) (token_indexers self)])"
proof -
  from assms have "\<not> truthy (opt_str l)" by auto
  then show ?thesis
    by (simp add: text_to_instance_def)
qed

lemma text_to_instance_labelled:
  assumes "s \<noteq> []"
  shows "text_to_instance self (PyList xs) (PyList ys) (opt_str (Some s)) =
     Inr (Instance
       [''sentence'' \<mapsto> TextField (map Token xs) (token_indexers self),
        ''pos'' \<mapsto> TextField (map Token ys) (token_indexers self),
        ''label'' \<mapsto> LabelField s])"
  using assms by (simp add: text_to_instance_def)

lemma text_to_instance_lists:
  "\<exists>inst. text_to_instance self (PyList xs) (PyList ys) (opt_str l) = Inr inst \<and>
     fields_of inst ''sentence'' = Some (TextField (map Token xs) (token_indexers self)) \<and>
     fields_of inst ''pos'' = Some (TextField (map Token ys) (token_indexers self)) \<and>
     fields_of inst ''label'' =
       (case l of None \<Rightarrow> None | Some s \<Rightarrow> if s = [] then None else Some (LabelField s))"
proof (cases "l = None \<or> l = Some []")
  case True
  from text_to_instance_unlabelled [OF this] True show ?thesis
    by auto
next
  case False
  then obtain s where l: "l = Some s" and s: "s \<noteq> []" by auto
  from text_to_instance_labelled [OF s] show ?thesis
    unfolding l using s by simp
qed

lemma text_to_instance_fields:
  "\<exists>inst. text_to_instance self (str_list S) (str_list P) (opt_str l) = Inr inst \<and>
     fields_of inst ''sentence'' =
       Some (TextField (map (\<lambda>s. Token (PyStr s)) S) (token_indexers self)) \<and>
     fields_of inst ''pos'' =
       Some (TextField (map (\<lambda>s. Token (PyStr s)) P) (token_indexers self)) \<and>
     fields_of inst ''label'' =
       (case l of None \<Rightarrow> None | Some s \<Rightarrow> if s = [] then None else Some (LabelField s))"
  using text_to_instance_lists [of self "map PyStr S" "map PyStr P" l]
  by (simp add: str_list_def comp_def)

lemma sample_text_to_instance:
  "text_to_instance (init None None False)
     (str_list [''we'', ''used'', ''survey'', ''.'']) (str_list [''PRP'', ''VBD'', ''NN'', ''.''])
     (opt_str (Some ''METHODS'')) = Inr instance_methods"
  "text_to_instance (init None None False)
     (str_list [''it'', ''works'']) (str_list [''PRP'', ''VBZ'']) (opt_str (Some [])) =
     Inr instance_unlabelled"
  "text_to_instance (init None None False)
     (str_list [''it'', ''works'']) (str_list [''PRP'', ''VBZ'']) (opt_str None) =
     Inr instance_unlabelled"
  by (simp_all add: text_to_instance_def str_list_def init_def instance_methods_def
      instance_unlabelled_def)

text \<open>
  Claim C2. For every list \<open>S\<close> of sentence strings and every list \<open>P\<close> of tag strings,
  of any lengths, \<^verbatim>\<open>text_to_instance\<close> produces an instance whose \<^verbatim>\<open>sentence\<close> field
  holds exactly \<open>length S\<close> tokens and whose \<^verbatim>\<open>pos\<close> field holds exactly \<open>length P\<close>
  tokens, the \<open>i\<close>-th token of each field being the \<open>i\<close>-th string of its list.
\<close>

theorem text_to_instance_tokens:
  "\<exists>inst ts ps.
     text_to_instance self (str_list S) (str_list P) (opt_str l) = Inr inst \<and>
     fields_of inst ''sentence'' = Some (TextField ts (token_indexers self)) \<and>
     fields_of inst ''pos'' = Some (TextField ps (token_indexers self)) \<and>
     length ts = length S \<and> (\<forall>i<length S. ts ! i = Token (PyStr (S ! i))) \<and>
     length ps = length P \<and> (\<forall>i<length P. ps ! i = Token (PyStr (P ! i)))"
proof -
  let ?ts = "map (\<lambda>s. Token (PyStr s)) S" and ?ps = "map (\<lambda>s. Token (PyStr s)) P"
  from text_to_instance_fields [of self S P l]
  obtain inst where inst: "text_to_instance self (str_list S) (str_list P) (opt_str l) = Inr inst"
    "fields_of inst ''sentence'' = Some (TextField ?ts (token_indexers self))"
    "fields_of inst ''pos'' = Some (TextField ?ps (token_indexers self))"
    by blast
  have "length ?ts = length S" and "\<forall>i<length S. ?ts ! i = Token (PyStr (S ! i))"
    and "length ?ps = length P" and "\<forall>i<length P. ?ps ! i = Token (PyStr (P ! i))"
    by simp_all
  with inst show ?thesis by blast
qed

theorem text_to_instance_tokens_witness:
  "text_to_instance (init None None False)
     (str_list [''we'', ''used'', ''survey'', ''.'']) (str_list [''PRP'', ''VBD'', ''NN'', ''.''])
     (opt_str (Some ''METHODS'')) = Inr instance_methods \<and>
   (2::nat) < length [''we'', ''used'', ''survey'', ''.''] \<and>
   tokens (the (fields_of instance_methods ''sentence'')) ! 2 = Token (PyStr ''survey'') \<and>
   (1::nat) < length [''PRP'', ''VBD'', ''NN'', ''.''] \<and>
   tokens (the (fields_of instance_methods ''pos'')) ! 1 = Token (PyStr ''VBD'')"
proof -
  let ?S = "[''we'', ''used'', ''survey'', ''.'']" and ?P = "[''PRP'', ''VBD'', ''NN'', ''.'']"
  note run = sample_text_to_instance(1)
  from text_to_instance_tokens [of "init None None False" ?S ?P "Some ''METHODS''"]
  obtain inst ts ps where
    "text_to_instance (init None None False) (str_list ?S) (str_list ?P)
       (opt_str (Some ''METHODS'')) = Inr inst"
    "fields_of inst ''sentence'' = Some (TextField ts (token_indexers (init None None False)))"
    "fields_of inst ''pos'' = Some (TextField ps (token_indexers (init None None False)))"
    "\<forall>i<length ?S. ts ! i = Token (PyStr (?S ! i))"
    "\<forall>i<length ?P. ps ! i = Token (PyStr (?P ! i))"
    by blast
  with run have "tokens (the (fields_of instance_methods ''sentence'')) ! 2 = Token (PyStr ''survey'')"
    and "tokens (the (fields_of instance_methods ''pos'')) ! 1 = Token (PyStr ''VBD'')"
    by auto
  with run show ?thesis by simp
qed

text \<open>
  Claim C3. The instance \<^verbatim>\<open>text_to_instance\<close> produces has a \<^verbatim>\<open>label\<close> field exactly
  when the label is a non-empty string, and the field then holds that string; there is
  no \<^verbatim>\<open>label\<close> field when the label is the empty string or \<^verbatim>\<open>None\<close>. The two other
  arguments are any lists.
\<close>

theorem text_to_instance_label:
  "\<exists>inst. text_to_instance self (PyList xs) (PyList ys) (opt_str l) = Inr inst \<and>
     (fields_of inst ''label'' \<noteq> None) = (\<exists>s. l = Some s \<and> s \<noteq> []) \<and>
     fields_of inst ''label'' =
       (case l of None \<Rightarrow> None | Some s \<Rightarrow> if s = [] then None else Some (LabelField s))"
proof -
  from text_to_instance_lists [of self xs ys l]
  obtain inst where inst: "text_to_instance self (PyList xs) (PyList ys) (opt_str l) = Inr inst"
    and lab: "fields_of inst ''label'' =
       (case l of None \<Rightarrow> None | Some s \<Rightarrow> if s = [] then None else Some (LabelField s))"
    by blast
  have "(fields_of inst ''label'' \<noteq> None) = (\<exists>s. l = Some s \<and> s \<noteq> [])"
    unfolding lab by (cases l) simp_all
  with inst lab show ?thesis
    by (intro exI [of _ inst] conjI)
qed

theorem text_to_instance_label_witness:
  "text_to_instance (init None None False)
     (str_list [''we'', ''used'', ''survey'', ''.'']) (str_list [''PRP'', ''VBD'', ''NN'', ''.''])
     (PyStr ''METHODS'') = Inr instance_methods \<and>
   fields_of instance_methods ''label'' = Some (LabelField ''METHODS'') \<and>
   text_to_instance (init None None False)
     (str_list [''it'', ''works'']) (str_list [''PRP'', ''VBZ'']) (PyStr []) = Inr instance_unlabelled \<and>
   fields_of instance_unlabelled ''label'' = None \<and>
   text_to_instance (init None None False)
     (str_list [''it'', ''works'']) (str_list [''PRP'', ''VBZ'']) PyNone = Inr instance_unlabelled"
proof -
  let ?r = "init None None False"
  have m: "text_to_instance ?r
     (str_list [''we'', ''used'', ''survey'', ''.'']) (str_list [''PRP'', ''VBD'', ''NN'', ''.''])
     (opt_str (Some ''METHODS'')) = Inr instance_methods"
    by (rule sample_text_to_instance(1))
  have u: "text_to_instance ?r
     (str_list [''it'', ''works'']) (str_list [''PRP'', ''VBZ'']) (opt_str (Some [])) =
     Inr instance_unlabelled"
    by (rule sample_text_to_instance(2))
  have n: "text_to_instance ?r
     (str_list [''it'', ''works'']) (str_list [''PRP'', ''VBZ'']) (opt_str None) =
     Inr instance_unlabelled"
    by (rule sample_text_to_instance(3))
  from text_to_instance_label [of ?r "map PyStr [''we'', ''used'', ''survey'', ''.'']"
      "map PyStr [''PRP'', ''VBD'', ''NN'', ''.'']" "Some ''METHODS''"]
  obtain i1 where "text_to_instance ?r
     (PyList (map PyStr [''we'', ''used'', ''survey'', ''.'']))
     (PyList (map PyStr [''PRP'', ''VBD'', ''NN'', ''.''])) (opt_str (Some ''METHODS'')) = Inr i1"
    and "fields_of i1 ''label'' = (if ''METHODS'' = [] then None else Some (LabelField ''METHODS''))"
    by fastforce
  with m have 1: "fields_of instance_methods ''label'' = Some (LabelField ''METHODS'')"
    by (simp add: str_list_def)
  from text_to_instance_label [of ?r "map PyStr [''it'', ''works'']"
      "map PyStr [''PRP'', ''VBZ'']" "Some []"]
  obtain i2 where "text_to_instance ?r
     (PyList (map PyStr [''it'', ''works''])) (PyList (map PyStr [''PRP'', ''VBZ'']))
     (opt_str (Some [])) = Inr i2"
    and "fields_of i2 ''label'' = (if ([] :: string) = [] then None else Some (LabelField []))"
    by fastforce
  with u have 2: "fields_of instance_unlabelled ''label'' = None"
    by (simp add: str_list_def)
  from m u n 1 2 show ?thesis by simp
qed

text \<open>
  Claim C8. \<^verbatim>\<open>text_to_instance\<close> is total on lists of strings: for every pair of lists,
  empty or not and of equal length or not, it returns an instance and raises nothing;
  an empty \<^verbatim>\<open>sentence\<close> list gives an empty text field.
\<close>

theorem text_to_instance_total:
  "(\<exists>inst. text_to_instance self (str_list S) (str_list P) (opt_str l) = Inr inst) \<and>
   (\<exists>inst. text_to_instance self (str_list []) (str_list P) (opt_str l) = Inr inst \<and>
      fields_of inst ''sentence'' = Some (TextField [] (token_indexers self)))"
proof
  from text_to_instance_fields [of self S P l]
  show "\<exists>inst. text_to_instance self (str_list S) (str_list P) (opt_str l) = Inr inst"
    by blast
  from text_to_instance_fields [of self "[]" P l]
  show "\<exists>inst. text_to_instance self (str_list []) (str_list P) (opt_str l) = Inr inst \<and>
      fields_of inst ''sentence'' = Some (TextField [] (token_indexers self))"
    by auto
qed

section \<open>The run of \<^verbatim>\<open>_read\<close>\<close>

subsection \<open>The loop over the lines\<close>

lemma read_lines_all_ok:
  "\<forall>l\<in>set ls. \<exists>y. read_line h self l = Inr y \<Longrightarrow>
   read_lines h self ls = (map (\<lambda>l. projr (read_line h self l)) ls, None)"
  by (induction ls) auto

text \<open>The instances yielded come from an initial segment of the lines, one for each line of it.\<close>

lemma read_lines_prefix:
  "read_lines h self ls = (ys, r) \<Longrightarrow>
   length ys \<le> length ls \<and> (\<forall>i<length ys. read_line h self (ls ! i) = Inr (ys ! i))"
proof (induction ls arbitrary: ys r)
  case Nil
  then show ?case by simp
next
  case (Cons l ls)
  show ?case
  proof (cases "read_line h self l")
    case (Inl e)
    with Cons.prems show ?thesis by simp
  next
    case (Inr y)
    obtain zs r' where rest: "read_lines h self ls = (zs, r')"
      by (cases "read_lines h self ls")
    with Inr Cons.prems have ys: "ys = y # zs" by simp
    from Cons.IH [OF rest] Inr show ?thesis
      unfolding ys by (auto simp: nth_Cons split: nat.splits)
  qed
qed

lemma read_lines_append:
  "read_lines h self (xs @ zs) =
     (case read_lines h self xs of
        (a, Some e) \<Rightarrow> (a, Some e)
      | (a, None) \<Rightarrow> (case read_lines h self zs of (b, r) \<Rightarrow> (a @ b, r)))"
  by (induction xs) (auto split: sum.splits prod.splits option.splits)

text \<open>
  The run stops at the first line on which the body of the loop raises: it yields the
  instances of the lines before that line and ends with the exception of that line.
\<close>

lemma read_lines_first_failure:
  assumes "\<forall>l\<in>set good. \<exists>y. read_line h self l = Inr y" and "read_line h self bad0 = Inl e"
  shows "read_lines h self (good @ bad0 # rest) =
           (map (\<lambda>l. projr (read_line h self l)) good, Some e)"
  using assms by (simp add: read_lines_append read_lines_all_ok)

lemma first_failure_split:
  assumes "read_line h self bad = Inl e0"
  shows "\<exists>good bad0 rest e.
           pre @ bad # post = good @ bad0 # rest \<and> length good \<le> length pre \<and>
           (\<forall>l\<in>set good. \<exists>y. read_line h self l = Inr y) \<and>
           read_line h self bad0 = Inl e \<and>
           (if \<forall>l\<in>set pre. \<exists>y. read_line h self l = Inr y
            then good = pre \<and> bad0 = bad \<and> e = e0
            else length good < length pre \<and> bad0 = pre ! length good)"
proof (induction pre)
  case Nil
  from assms show ?case by auto
next
  case (Cons l pre)
  show ?case
  proof (cases "read_line h self l")
    case (Inl e)
    have "(l # pre) @ bad # post = [] @ l # (pre @ bad # post)" by simp
    moreover have "\<not> (\<forall>l'\<in>set (l # pre). \<exists>y. read_line h self l' = Inr y)"
      using Inl by simp
    ultimately show ?thesis using Inl
      by (intro exI [of _ "[]"] exI [of _ l] exI [of _ "pre @ bad # post"] exI [of _ e]) simp
  next
    case (Inr y)
    from Cons.IH obtain good bad0 rest e where ih:
      "pre @ bad # post = good @ bad0 # rest" "length good \<le> length pre"
      "\<forall>l\<in>set good. \<exists>y. read_line h self l = Inr y"
      "read_line h self bad0 = Inl e"
      "if \<forall>l\<in>set pre. \<exists>y. read_line h self l = Inr y
       then good = pre \<and> bad0 = bad \<and> e = e0
       else length good < length pre \<and> bad0 = pre ! length good"
      by blast
    from ih Inr show ?thesis
      by (intro exI [of _ "l # good"] exI [of _ bad0] exI [of _ rest] exI [of _ e])
        (auto split: if_splits)
  qed
qed

lemma read_first_failure:
  assumes "cached_path h src = Inr p" and "open_file h p = Inr (pre @ bad # post)"
    and "read_line h self bad = Inl e0"
  shows "\<exists>good bad0 rest ys e.
           pre @ bad # post = good @ bad0 # rest \<and> length good \<le> length pre \<and>
           length ys = length good \<and>
           (\<forall>i<length good. read_line h self (good ! i) = Inr (ys ! i)) \<and>
           read_line h self bad0 = Inl e \<and>
           read h self src = (ys, Some e) \<and>
           (if \<forall>l\<in>set pre. \<exists>y. read_line h self l = Inr y
            then good = pre \<and> bad0 = bad \<and> e = e0
            else length good < length pre \<and> bad0 = pre ! length good)"
proof -
  from first_failure_split [OF assms(3), of pre post]
  obtain good bad0 rest e where s:
    "pre @ bad # post = good @ bad0 # rest" "length good \<le> length pre"
    "\<forall>l\<in>set good. \<exists>y. read_line h self l = Inr y"
    "read_line h self bad0 = Inl e"
    "if \<forall>l\<in>set pre. \<exists>y. read_line h self l = Inr y
     then good = pre \<and> bad0 = bad \<and> e = e0
     else length good < length pre \<and> bad0 = pre ! length good"
    by blast
  let ?ys = "map (\<lambda>l. projr (read_line h self l)) good"
  from read_lines_first_failure [OF s(3,4), of rest] assms(1,2) s(1)
  have run: "read h self src = (?ys, Some e)"
    by (simp add: read_def)
  have nth: "\<forall>i<length good. read_line h self (good ! i) = Inr (?ys ! i)"
  proof (intro allI impI)
    fix i assume i: "i < length good"
    with s(3) obtain y where "read_line h self (good ! i) = Inr y"
      by (meson nth_mem)
    with i show "read_line h self (good ! i) = Inr (?ys ! i)" by simp
  qed
  have len: "length ?ys = length good" by simp
  from s(1,2) len nth s(4) run s(5) show ?thesis
    by (intro exI [of _ good] exI [of _ bad0] exI [of _ rest] exI [of _ ?ys] exI [of _ e] conjI)
qed

subsection \<open>One line\<close>

lemma read_line_record:
  assumes "json_loads h l = Inr (PyDict kvs)"
    and "map_of kvs ''label'' = Some lb" and "map_of kvs ''sentence'' = Some s"
    and "map_of kvs ''pos'' = Some p"
  shows "read_line h self l = text_to_instance self s p lb"
  using assms by (simp add: read_line_def)

lemma is_str_list_py_iter: "is_str_list v \<Longrightarrow> \<exists>xs. py_iter v = Inr xs"
  by (cases v) simp_all

lemma well_formed_record:
  assumes "well_formed v"
  shows "\<exists>kvs lb s p y. v = PyDict kvs \<and> map_of kvs ''label'' = Some lb \<and>
           map_of kvs ''sentence'' = Some s \<and> map_of kvs ''pos'' = Some p \<and>
           text_to_instance self s p lb = Inr y"
proof -
  from assms obtain kvs lb s p where v: "v = PyDict kvs"
    and keys: "map_of kvs ''label'' = Some lb" "map_of kvs ''sentence'' = Some s"
      "map_of kvs ''pos'' = Some p"
    and types: "is_str lb" "is_str_list s" "is_str_list p"
    by (cases v) (auto split: option.splits)
  from types obtain str where lb: "lb = PyStr str" by (cases lb) simp_all
  from types obtain ts ps where it: "py_iter s = Inr ts" "py_iter p = Inr ps"
    using is_str_list_py_iter by blast
  then have "\<exists>y. text_to_instance self s p lb = Inr y"
    by (simp add: lb text_to_instance_def Let_def)
  with v keys show ?thesis by blast
qed

lemma read_line_well_formed:
  assumes "json_loads h l = Inr v" and "well_formed v"
  shows "\<exists>y. read_line h self l = Inr y"
proof -
  from well_formed_record [OF assms(2), of self]
  obtain kvs lb s p y where "v = PyDict kvs" "map_of kvs ''label'' = Some lb"
    "map_of kvs ''sentence'' = Some s" "map_of kvs ''pos'' = Some p"
    "text_to_instance self s p lb = Inr y"
    by blast
  with assms(1) show ?thesis by (simp add: read_line_record)
qed

lemma read_line_missing_key:
  assumes "json_loads h l = Inr (PyDict kvs)"
    and "k \<in> {''label'', ''sentence'', ''pos''}" and "map_of kvs k = None"
  shows "\<exists>k'\<in>{''label'', ''sentence'', ''pos''}.
           map_of kvs k' = None \<and> read_line h self l = Inl (KeyError k')"
proof (cases "map_of kvs ''label''")
  case None
  with assms(1) show ?thesis by (simp add: read_line_def)
next
  case lb: (Some a)
  show ?thesis
  proof (cases "map_of kvs ''sentence''")
    case None
    with assms(1) lb show ?thesis by (simp add: read_line_def)
  next
    case s: (Some b)
    with assms(2,3) lb have "map_of kvs ''pos'' = None" by auto
    with assms(1) lb s show ?thesis by (simp add: read_line_def)
  qed
qed

subsection \<open>The sample host, evaluated\<close>

lemma sample_lines_distinct [simp]:
  "line_methods \<noteq> line_unlabelled" "line_methods \<noteq> line_no_pos" "line_methods \<noteq> line_no_label"
  "line_unlabelled \<noteq> line_methods" "line_unlabelled \<noteq> line_no_pos" "line_unlabelled \<noteq> line_no_label"
  "line_no_pos \<noteq> line_methods" "line_no_pos \<noteq> line_unlabelled" "line_no_pos \<noteq> line_no_label"
  "line_no_label \<noteq> line_methods" "line_no_label \<noteq> line_unlabelled" "line_no_label \<noteq> line_no_pos"
  "line_truncated \<noteq> line_methods" "line_truncated \<noteq> line_unlabelled"
  "line_truncated \<noteq> line_no_pos" "line_truncated \<noteq> line_no_label"
  "line_empty \<noteq> line_methods" "line_empty \<noteq> line_unlabelled"
  "line_empty \<noteq> line_no_pos" "line_empty \<noteq> line_no_label"
  "line_methods \<noteq> line_empty" "line_unlabelled \<noteq> line_empty"
  by (simp_all add: line_methods_def line_unlabelled_def line_no_pos_def line_no_label_def
      line_truncated_def line_empty_def)

lemma sample_loads_simps [simp]:
  "sample_loads line_methods = Inr record_methods"
  "sample_loads line_unlabelled = Inr record_unlabelled"
  "sample_loads line_no_pos = Inr record_no_pos"
  "sample_loads line_no_label = Inr record_no_label"
  "sample_loads line_truncated = Inl JSONDecodeError"
  "sample_loads line_empty = Inl JSONDecodeError"
  by (simp_all add: sample_loads_def)

lemma sample_host_simps [simp]:
  "cached_path sample_host p = Inr p"
  "open_file sample_host = sample_open"
  "json_loads sample_host = sample_loads"
  by (simp_all add: sample_host_def)

lemma sample_open_simps [simp]:
  "sample_open ''train.jsonl'' = Inr [line_methods, line_unlabelled]"
  "sample_open ''blank.jsonl'' = Inr [line_methods, line_empty, line_unlabelled]"
  "sample_open ''no_pos.jsonl'' = Inr [line_methods, line_no_pos, line_unlabelled]"
  "sample_open ''no_label.jsonl'' = Inr [line_methods, line_unlabelled, line_no_label]"
  "sample_open ''truncated.jsonl'' = Inr [line_methods, line_truncated, line_unlabelled]"
  "sample_open ''no_pos_truncated.jsonl'' = Inr [line_no_pos, line_truncated]"
  "sample_open ''truncated_no_pos.jsonl'' = Inr [line_truncated, line_no_pos]"
  by (simp_all add: sample_open_def)

lemma sample_well_formed [simp]:
  "well_formed record_methods" "well_formed record_unlabelled"
  by (simp_all add: record_methods_def record_unlabelled_def)

lemma sample_read_line [simp]:
  "read_line sample_host (init None None False) line_methods = Inr instance_methods"
  "read_line sample_host (init None None False) line_unlabelled = Inr instance_unlabelled"
  "read_line sample_host (init None None False) line_no_pos = Inl (KeyError ''pos'')"
  "read_line sample_host (init None None False) line_no_label = Inl (KeyError ''label'')"
  "read_line sample_host (init None None False) line_truncated = Inl JSONDecodeError"
  "read_line sample_host (init None None False) line_empty = Inl JSONDecodeError"
  by (simp_all add: read_line_def record_methods_def record_unlabelled_def record_no_pos_def
      record_no_label_def text_to_instance_def init_def instance_methods_def instance_unlabelled_def)

lemma sample_read [simp]:
  "read sample_host (init None None False) ''train.jsonl'' =
     ([instance_methods, instance_unlabelled], None)"
  "read sample_host (init None None False) ''blank.jsonl'' =
     ([instance_methods], Some JSONDecodeError)"
  "read sample_host (init None None False) ''no_pos.jsonl'' =
     ([instance_methods], Some (KeyError ''pos''))"
  "read sample_host (init None None False) ''no_label.jsonl'' =
     ([instance_methods, instance_unlabelled], Some (KeyError ''label''))"
  "read sample_host (init None None False) ''truncated.jsonl'' =
     ([instance_methods], Some JSONDecodeError)"
  "read sample_host (init None None False) ''no_pos_truncated.jsonl'' =
     ([], Some (KeyError ''pos''))"
  "read sample_host (init None None False) ''truncated_no_pos.jsonl'' =
     ([], Some JSONDecodeError)"
  by (simp_all add: read_def)

subsection \<open>Files of well-formed records\<close>

text \<open>
  Claim C1. When every line of the file is a well-formed record, \<^verbatim>\<open>_read\<close> yields exactly
  one instance per line and ends without an exception; the instances are in the order
  of the lines, the \<open>i\<close>-th one being the conversion of the \<^verbatim>\<open>sentence\<close>, \<^verbatim>\<open>pos\<close> and
  \<^verbatim>\<open>label\<close> of the \<open>i\<close>-th line.
\<close>

theorem read_well_formed_file:
  assumes "cached_path h src = Inr p" and "open_file h p = Inr ls"
    and "\<forall>l\<in>set ls. \<exists>v. json_loads h l = Inr v \<and> well_formed v"
  shows "\<exists>ys. read h self src = (ys, None) \<and> length ys = length ls \<and>
           (\<forall>i<length ls. \<exists>kvs lb s p.
              json_loads h (ls ! i) = Inr (PyDict kvs) \<and> map_of kvs ''label'' = Some lb \<and>
              map_of kvs ''sentence'' = Some s \<and> map_of kvs ''pos'' = Some p \<and>
              text_to_instance self s p lb = Inr (ys ! i))"
proof -
  from assms(3) have ok: "\<forall>l\<in>set ls. \<exists>y. read_line h self l = Inr y"
    using read_line_well_formed by blast
  let ?ys = "map (\<lambda>l. projr (read_line h self l)) ls"
  from read_lines_all_ok [OF ok] assms(1,2) have run: "read h self src = (?ys, None)"
    by (simp add: read_def)
  have "\<exists>kvs lb s p.
      json_loads h (ls ! i) = Inr (PyDict kvs) \<and> map_of kvs ''label'' = Some lb \<and>
      map_of kvs ''sentence'' = Some s \<and> map_of kvs ''pos'' = Some p \<and>
      text_to_instance self s p lb = Inr (?ys ! i)" if i: "i < length ls" for i
  proof -
    from i assms(3) obtain v where v: "json_loads h (ls ! i) = Inr v" "well_formed v"
      by (meson nth_mem)
    from well_formed_record [OF v(2), of self]
    obtain kvs lb s p y where r: "v = PyDict kvs" "map_of kvs ''label'' = Some lb"
      "map_of kvs ''sentence'' = Some s" "map_of kvs ''pos'' = Some p"
      "text_to_instance self s p lb = Inr y"
      by blast
    from v(1) r have "read_line h self (ls ! i) = Inr y"
      by (simp add: read_line_record)
    with i have "?ys ! i = y" by simp
    with v(1) r show ?thesis by blast
  qed
  with run show ?thesis by simp
qed

theorem read_well_formed_file_witness:
  "cached_path sample_host ''train.jsonl'' = Inr ''train.jsonl'' \<and>
   open_file sample_host ''train.jsonl'' = Inr [line_methods, line_unlabelled] \<and>
   json_loads sample_host line_methods = Inr record_methods \<and> well_formed record_methods \<and>
   json_loads sample_host line_unlabelled = Inr record_unlabelled \<and> well_formed record_unlabelled \<and>
   read sample_host (init None None False) ''train.jsonl'' = ([instance_methods, instance_unlabelled], None)"
proof -
  have hyp: "\<forall>l\<in>set [line_methods, line_unlabelled]. \<exists>v. json_loads sample_host l = Inr v \<and> well_formed v"
    by simp
  from read_well_formed_file [of sample_host "''train.jsonl''" "''train.jsonl''"
      "[line_methods, line_unlabelled]" "init None None False", OF _ _ hyp]
  obtain ys where ys: "read sample_host (init None None False) ''train.jsonl'' = (ys, None)"
      "length ys = 2"
      "\<forall>i<2. \<exists>kvs lb s p.
         json_loads sample_host ([line_methods, line_unlabelled] ! i) = Inr (PyDict kvs) \<and>
         map_of kvs ''label'' = Some lb \<and> map_of kvs ''sentence'' = Some s \<and>
         map_of kvs ''pos'' = Some p \<and>
         text_to_instance (init None None False) s p lb = Inr (ys ! i)"
    by auto
  from ys(3) [rule_format, of 0] sample_text_to_instance(1)
  have "ys ! 0 = instance_methods"
    by (auto simp: record_methods_def str_list_def)
  moreover from ys(3) [rule_format, of 1] sample_text_to_instance(2)
  have "ys ! 1 = instance_unlabelled"
    by (auto simp: record_unlabelled_def str_list_def)
  ultimately have "ys = [instance_methods, instance_unlabelled]"
    using ys(2) by (cases ys; cases "tl ys") auto
  with ys(1) show ?thesis by simp
qed

subsection \<open>Files with a line that fails\<close>

text \<open>
  Claim C4, as amended. When a line of the file parses as a JSON object that lacks one
  of the keys \<^verbatim>\<open>label\<close>, \<^verbatim>\<open>sentence\<close>, \<^verbatim>\<open>pos\<close>, \<^verbatim>\<open>_read\<close> ends with an exception, which
  nothing catches: it yields one instance for each line before the first line that
  fails, in order, and then raises the exception of that line. When every line before
  the object is read without an exception, the first line that fails is the object and
  the exception is the \<^verbatim>\<open>KeyError\<close> of a key it lacks; otherwise the first line that
  fails is an earlier line, and the exception is the one of that line. The key
  \<^verbatim>\<open>label\<close> is required like the other two.
\<close>

theorem read_missing_key:
  assumes "cached_path h src = Inr p" and "open_file h p = Inr (pre @ bad # post)"
    and "json_loads h bad = Inr (PyDict kvs)"
    and "k \<in> {''label'', ''sentence'', ''pos''}" and "map_of kvs k = None"
  shows "\<exists>good bad0 rest ys e.
           pre @ bad # post = good @ bad0 # rest \<and> length good \<le> length pre \<and>
           length ys = length good \<and>
           (\<forall>i<length good. read_line h self (good ! i) = Inr (ys ! i)) \<and>
           read_line h self bad0 = Inl e \<and>
           read h self src = (ys, Some e) \<and>
           (if \<forall>l\<in>set pre. \<exists>y. read_line h self l = Inr y
            then good = pre \<and> bad0 = bad \<and>
                 (\<exists>k'\<in>{''label'', ''sentence'', ''pos''}. map_of kvs k' = None \<and> e = KeyError k')
            else length good < length pre \<and> bad0 = pre ! length good)"
proof -
  from read_line_missing_key [OF assms(3,4,5), of self]
  obtain k' where k': "k' \<in> {''label'', ''sentence'', ''pos''}" "map_of kvs k' = None"
    "read_line h self bad = Inl (KeyError k')"
    by blast
  from read_first_failure [OF assms(1,2) k'(3)]
  obtain good bad0 rest ys e where r:
    "pre @ bad # post = good @ bad0 # rest" "length good \<le> length pre"
    "length ys = length good"
    "\<forall>i<length good. read_line h self (good ! i) = Inr (ys ! i)"
    "read_line h self bad0 = Inl e"
    "read h self src = (ys, Some e)"
    "if \<forall>l\<in>set pre. \<exists>y. read_line h self l = Inr y
     then good = pre \<and> bad0 = bad \<and> e = KeyError k'
     else length good < length pre \<and> bad0 = pre ! length good"
    by blast
  from r(7) k'(1,2)
  have "if \<forall>l\<in>set pre. \<exists>y. read_line h self l = Inr y
     then good = pre \<and> bad0 = bad \<and>
          (\<exists>k'\<in>{''label'', ''sentence'', ''pos''}. map_of kvs k' = None \<and> e = KeyError k')
     else length good < length pre \<and> bad0 = pre ! length good"
  proof (cases "\<forall>l\<in>set pre. \<exists>y. read_line h self l = Inr y")
    case True
    from r(7) have "good = pre \<and> bad0 = bad \<and> e = KeyError k'"
      unfolding if_P [OF True] .
    with k'(1,2) have "good = pre \<and> bad0 = bad \<and>
        (\<exists>k'\<in>{''label'', ''sentence'', ''pos''}. map_of kvs k' = None \<and> e = KeyError k')"
      by blast
    then show ?thesis unfolding if_P [OF True] .
  next
    case False
    from r(7) show ?thesis unfolding if_not_P [OF False] .
  qed
  with r(1-6) show ?thesis
    by (intro exI [of _ good] exI [of _ bad0] exI [of _ rest] exI [of _ ys] exI [of _ e] conjI)
qed

text \<open>
  The claim as it was stated fails on a file whose first line is not valid JSON and
  whose second line is an object without \<^verbatim>\<open>pos\<close>: the run ends at the first line with
  the parse failure, and no lookup error is ever raised.
\<close>

theorem read_missing_key_counterexample:
  "open_file sample_host ''truncated_no_pos.jsonl'' = Inr [line_truncated, line_no_pos] \<and>
   json_loads sample_host line_no_pos = Inr record_no_pos \<and>
   getitem record_no_pos ''pos'' = Inl (KeyError ''pos'') \<and>
   read sample_host (init None None False) ''truncated_no_pos.jsonl'' = ([], Some JSONDecodeError)"
  by (simp add: record_no_pos_def)

theorem read_missing_key_witness:
  "open_file sample_host ''no_pos.jsonl'' = Inr ([line_methods] @ line_no_pos # [line_unlabelled]) \<and>
   json_loads sample_host line_no_pos =
     Inr (PyDict [(''label'', PyStr ''RESULTS''),
                  (''sentence'', PyList [PyStr ''it'', PyStr ''works''])]) \<and>
   read_line sample_host (init None None False) line_methods = Inr instance_methods \<and>
   read sample_host (init None None False) ''no_pos.jsonl'' =
     ([instance_methods], Some (KeyError ''pos'')) \<and>
   json_loads sample_host line_no_label = Inr record_no_label \<and>
   read sample_host (init None None False) ''no_label.jsonl'' =
     ([instance_methods, instance_unlabelled], Some (KeyError ''label''))"
proof -
  let ?kvs = "[(''label'', PyStr ''RESULTS''), (''sentence'', PyList [PyStr ''it'', PyStr ''works''])]"
  let ?r = "init None None False"
  have f: "open_file sample_host ''no_pos.jsonl'' = Inr ([line_methods] @ line_no_pos # [line_unlabelled])"
    by simp
  have j: "json_loads sample_host line_no_pos = Inr (PyDict ?kvs)"
    by (simp add: record_no_pos_def)
  have k: "''pos'' \<in> {''label'', ''sentence'', ''pos''}" "map_of ?kvs ''pos'' = None"
    by simp_all
  have ok: "\<forall>l\<in>set [line_methods]. \<exists>y. read_line sample_host ?r l = Inr y"
    by simp
  from read_missing_key [OF _ f j k, of "''no_pos.jsonl''" ?r]
  obtain good bad0 rest ys e where r:
    "length ys = length good"
    "\<forall>i<length good. read_line sample_host ?r (good ! i) = Inr (ys ! i)"
    "read sample_host ?r ''no_pos.jsonl'' = (ys, Some e)"
    "[line_methods] @ line_no_pos # [line_unlabelled] = good @ bad0 # rest"
    "if \<forall>l\<in>set [line_methods]. \<exists>y. read_line sample_host ?r l = Inr y
     then good = [line_methods] \<and> bad0 = line_no_pos \<and>
          (\<exists>k'\<in>{''label'', ''sentence'', ''pos''}. map_of ?kvs k' = None \<and> e = KeyError k')
     else length good < length [line_methods] \<and> bad0 = [line_methods] ! length good"
    using sample_host_simps(1) by blast
  from r(5) ok have g: "good = [line_methods]"
    and e: "\<exists>k'\<in>{''label'', ''sentence'', ''pos''}. map_of ?kvs k' = None \<and> e = KeyError k'"
    by presburger+
  from e have "e = KeyError ''pos''" by auto
  moreover from r(1,2) g have "ys = [instance_methods]" by (cases ys) auto
  ultimately have "read sample_host ?r ''no_pos.jsonl'' = ([instance_methods], Some (KeyError ''pos''))"
    using r(3) by simp
  with f j show ?thesis by simp
qed

text \<open>
  Claim C5, as amended. When a line of the file is not valid JSON, \<^verbatim>\<open>_read\<close> ends with an
  exception: it yields one instance for each line before the first line that fails, in
  order, and then raises the exception of that line, so that no line is skipped and
  nothing from the invalid line on is yielded. When every line before the invalid one
  is read without an exception, the first line that fails is the invalid line and the
  exception is the parse failure; otherwise the first line that fails is an earlier
  line, and the exception is the one of that line.
\<close>

theorem read_invalid_json:
  assumes "cached_path h src = Inr p" and "open_file h p = Inr (pre @ bad # post)"
    and "json_loads h bad = Inl JSONDecodeError"
  shows "\<exists>good bad0 rest ys e.
           pre @ bad # post = good @ bad0 # rest \<and> length good \<le> length pre \<and>
           length ys = length good \<and>
           (\<forall>i<length good. read_line h self (good ! i) = Inr (ys ! i)) \<and>
           read_line h self bad0 = Inl e \<and>
           read h self src = (ys, Some e) \<and>
           (if \<forall>l\<in>set pre. \<exists>y. read_line h self l = Inr y
            then good = pre \<and> bad0 = bad \<and> e = JSONDecodeError
            else length good < length pre \<and> bad0 = pre ! length good)"
proof -
  from assms(3) have "read_line h self bad = Inl JSONDecodeError"
    by (simp add: read_line_def)
  from read_first_failure [OF assms(1,2) this] show ?thesis .
qed

text \<open>
  The claim as it was stated fails on a file whose first line is an object without
  \<^verbatim>\<open>pos\<close> and whose second line is not valid JSON: the run ends at the first line with
  the lookup error, and no parse failure is ever raised.
\<close>

theorem read_invalid_json_counterexample:
  "open_file sample_host ''no_pos_truncated.jsonl'' = Inr [line_no_pos, line_truncated] \<and>
   json_loads sample_host line_truncated = Inl JSONDecodeError \<and>
   read sample_host (init None None False) ''no_pos_truncated.jsonl'' = ([], Some (KeyError ''pos''))"
  by simp

theorem read_invalid_json_witness:
  "open_file sample_host ''truncated.jsonl'' = Inr ([line_methods] @ line_truncated # [line_unlabelled]) \<and>
   json_loads sample_host line_truncated = Inl JSONDecodeError \<and>
   read_line sample_host (init None None False) line_methods = Inr instance_methods \<and>
   read sample_host (init None None False) ''truncated.jsonl'' =
     ([instance_methods], Some JSONDecodeError)"
proof -
  let ?r = "init None None False"
  have f: "open_file sample_host ''truncated.jsonl'' = Inr ([line_methods] @ line_truncated # [line_unlabelled])"
    by simp
  have j: "json_loads sample_host line_truncated = Inl JSONDecodeError"
    by simp
  have ok: "\<forall>l\<in>set [line_methods]. \<exists>y. read_line sample_host ?r l = Inr y"
    by simp
  from read_invalid_json [OF _ f j, of "''truncated.jsonl''" ?r]
  obtain good bad0 rest ys e where r:
    "length ys = length good"
    "\<forall>i<length good. read_line sample_host ?r (good ! i) = Inr (ys ! i)"
    "read sample_host ?r ''truncated.jsonl'' = (ys, Some e)"
    "[line_methods] @ line_truncated # [line_unlabelled] = good @ bad0 # rest"
    "if \<forall>l\<in>set [line_methods]. \<exists>y. read_line sample_host ?r l = Inr y
     then good = [line_methods] \<and> bad0 = line_truncated \<and> e = JSONDecodeError
     else length good < length [line_methods] \<and> bad0 = [line_methods] ! length good"
    using sample_host_simps(1) by blast
  from r(5) ok have g: "good = [line_methods]" and e: "e = JSONDecodeError"
    by presburger+
  from r(1,2) g have "ys = [instance_methods]" by (cases ys) auto
  with e r(3) have "read sample_host ?r ''truncated.jsonl'' = ([instance_methods], Some JSONDecodeError)"
    by simp
  with f j show ?thesis by simp
qed

subsection \<open>Empty lines\<close>

lemma read_lines_empty_line:
  assumes "json_loads h line_empty = Inl JSONDecodeError"
    and "\<forall>l\<in>set ls. l = line_empty \<or> (\<exists>v. json_loads h l = Inr v \<and> well_formed v)"
  shows "read_lines h self ls =
           (map (\<lambda>l. projr (read_line h self l)) (takeWhile (\<lambda>l. l \<noteq> line_empty) ls),
            if line_empty \<in> set ls then Some JSONDecodeError else None)"
  using assms(2)
proof (induction ls)
  case Nil
  then show ?case by simp
next
  case (Cons l ls)
  show ?case
  proof (cases "l = line_empty")
    case True
    with assms(1) have "read_line h self l = Inl JSONDecodeError"
      by (simp add: read_line_def)
    with True show ?thesis by simp
  next
    case False
    with Cons.prems obtain v where "json_loads h l = Inr v" "well_formed v" by auto
    from read_line_well_formed [OF this, of self] obtain y where "read_line h self l = Inr y" ..
    moreover from Cons have "read_lines h self ls =
           (map (\<lambda>l. projr (read_line h self l)) (takeWhile (\<lambda>l. l \<noteq> line_empty) ls),
            if line_empty \<in> set ls then Some JSONDecodeError else None)"
      by simp
    ultimately show ?thesis using False by auto
  qed
qed

text \<open>
  Claim C6, as amended. \<^verbatim>\<open>_read\<close> passes every line of the file to \<^verbatim>\<open>json.loads\<close>, the
  empty ones too. In a file whose non-empty lines are well-formed records, each line
  before the first empty line is parsed and yields one instance, in order; an empty
  line contributes no instance and, \<^verbatim>\<open>json.loads\<close> rejecting it, ends the run with the
  parse failure, so that no line after it is read. Without an empty line the run
  yields one instance per line and ends without an exception.
\<close>

theorem read_empty_line:
  assumes "cached_path h src = Inr p" and "open_file h p = Inr ls"
    and "json_loads h line_empty = Inl JSONDecodeError"
    and "\<forall>l\<in>set ls. l = line_empty \<or> (\<exists>v. json_loads h l = Inr v \<and> well_formed v)"
  shows "\<exists>ys. read h self src =
             (ys, if line_empty \<in> set ls then Some JSONDecodeError else None) \<and>
           length ys = length (takeWhile (\<lambda>l. l \<noteq> line_empty) ls) \<and>
           (\<forall>i<length ys. read_line h self (ls ! i) = Inr (ys ! i))"
proof -
  let ?ys = "map (\<lambda>l. projr (read_line h self l)) (takeWhile (\<lambda>l. l \<noteq> line_empty) ls)"
  let ?r = "if line_empty \<in> set ls then Some JSONDecodeError else None"
  from read_lines_empty_line [OF assms(3,4)] have rl: "read_lines h self ls = (?ys, ?r)" .
  with assms(1,2) have "read h self src = (?ys, ?r)"
    by (simp add: read_def)
  moreover from read_lines_prefix [OF rl]
  have "\<forall>i<length ?ys. read_line h self (ls ! i) = Inr (?ys ! i)" by blast
  ultimately show ?thesis by simp
qed

text \<open>
  The claim as it was stated fails on a file with an empty line between two well-formed
  lines: the run yields the instance of the first line and ends at the empty line with
  the parse failure; the third line, which is not empty, yields nothing.
\<close>

theorem read_empty_line_counterexample:
  "open_file sample_host ''blank.jsonl'' = Inr [line_methods, line_empty, line_unlabelled] \<and>
   line_empty = [CHR 0x0A] \<and>
   json_loads sample_host line_methods = Inr record_methods \<and>
   json_loads sample_host line_unlabelled = Inr record_unlabelled \<and>
   read sample_host (init None None False) ''blank.jsonl'' = ([instance_methods], Some JSONDecodeError)"
  by (simp add: line_empty_def [symmetric])

theorem read_empty_line_witness:
  "cached_path sample_host ''blank.jsonl'' = Inr ''blank.jsonl'' \<and>
   open_file sample_host ''blank.jsonl'' = Inr [line_methods, line_empty, line_unlabelled] \<and>
   json_loads sample_host line_empty = Inl JSONDecodeError \<and>
   json_loads sample_host line_methods = Inr record_methods \<and> well_formed record_methods \<and>
   json_loads sample_host line_unlabelled = Inr record_unlabelled \<and> well_formed record_unlabelled \<and>
   snd (read sample_host (init None None False) ''blank.jsonl'') = Some JSONDecodeError \<and>
   length (fst (read sample_host (init None None False) ''blank.jsonl'')) = 1"
proof -
  have e: "json_loads sample_host line_empty = Inl JSONDecodeError"
    by simp
  have f: "open_file sample_host ''blank.jsonl'' = Inr [line_methods, line_empty, line_unlabelled]"
    by simp
  have hyp: "\<forall>l\<in>set [line_methods, line_empty, line_unlabelled].
      l = line_empty \<or> (\<exists>v. json_loads sample_host l = Inr v \<and> well_formed v)"
    by simp
  from read_empty_line [OF _ f e hyp, of "''blank.jsonl''" "init None None False"]
  obtain ys where "read sample_host (init None None False) ''blank.jsonl'' =
      (ys, if line_empty \<in> set [line_methods, line_empty, line_unlabelled]
           then Some JSONDecodeError else None)"
    "length ys = length (takeWhile (\<lambda>l. l \<noteq> line_empty) [line_methods, line_empty, line_unlabelled])"
    by auto
  then have "snd (read sample_host (init None None False) ''blank.jsonl'') = Some JSONDecodeError"
    "length (fst (read sample_host (init None None False) ''blank.jsonl'')) = 1"
    by simp_all
  with e f show ?thesis by simp
qed

section \<open>The tokenizer and the token indexers\<close>

lemma text_to_instance_cong_indexers:
  "token_indexers r1 = token_indexers r2 \<Longrightarrow>
   text_to_instance r1 sent pos label = text_to_instance r2 sent pos label"
  by (simp add: text_to_instance_def split: sum.splits)

lemma read_line_cong_indexers:
  "token_indexers r1 = token_indexers r2 \<Longrightarrow> read_line h r1 l = read_line h r2 l"
  by (simp add: read_line_def text_to_instance_cong_indexers [of r1 r2] split: sum.splits)

lemma read_lines_cong_indexers:
  "token_indexers r1 = token_indexers r2 \<Longrightarrow> read_lines h r1 ls = read_lines h r2 ls"
  by (induction ls) (simp_all add: read_line_cong_indexers [of r1 r2] split: sum.splits)

lemma read_cong_indexers:
  "token_indexers r1 = token_indexers r2 \<Longrightarrow> read h r1 src = read h r2 src"
  by (simp add: read_def read_lines_cong_indexers [of r1 r2] split: sum.splits)

text \<open>
  Claim C9. The tokenizer given to the constructor is never used: two readers built
  with different tokenizers and the same other arguments convert the same arguments
  to equal instances, and their runs of \<^verbatim>\<open>_read\<close> on the same source are equal.
\<close>

theorem tokenizer_unused:
  "text_to_instance (init t1 idx lz) sent pos label = text_to_instance (init t2 idx lz) sent pos label \<and>
   read h (init t1 idx lz) src = read h (init t2 idx lz) src"
proof -
  have eq: "token_indexers (init t1 idx lz) = token_indexers (init t2 idx lz)"
    by (simp add: init_def)
  show ?thesis
    using text_to_instance_cong_indexers [OF eq] read_cong_indexers [OF eq] by blast
qed

lemma text_to_instance_shape:
  "text_to_instance self sent pos label = Inr inst \<Longrightarrow> instance_shape self inst"
  by (auto simp: text_to_instance_def instance_shape_def Let_def split: sum.splits if_splits)

lemma read_lines_shape:
  "y \<in> set (fst (read_lines h self ls)) \<Longrightarrow> instance_shape self y"
proof (induction ls arbitrary: y)
  case Nil
  then show ?case by simp
next
  case (Cons l ls)
  then show ?case
    by (auto simp: read_line_def split: sum.splits prod.splits dest: text_to_instance_shape)
qed

text \<open>
  Claim C10. Every instance the reader produces, by \<^verbatim>\<open>text_to_instance\<close> and hence by
  \<^verbatim>\<open>_read\<close>, has a \<^verbatim>\<open>sentence\<close> field and a \<^verbatim>\<open>pos\<close> field, both text fields over the
  token indexers of the reader, and no field other than \<^verbatim>\<open>sentence\<close>, \<^verbatim>\<open>pos\<close> and
  \<^verbatim>\<open>label\<close>.
\<close>

theorem instances_have_shape:
  "(text_to_instance self sent pos label = Inr inst \<longrightarrow> instance_shape self inst) \<and>
   (\<forall>y\<in>set (fst (read h self src)). instance_shape self y)"
proof
  show "text_to_instance self sent pos label = Inr inst \<longrightarrow> instance_shape self inst"
    by (simp add: text_to_instance_shape)
  show "\<forall>y\<in>set (fst (read h self src)). instance_shape self y"
  proof
    fix y
    assume y: "y \<in> set (fst (read h self src))"
    then obtain p ls where "cached_path h src = Inr p" "open_file h p = Inr ls"
      by (auto simp: read_def split: sum.splits)
    with y have "y \<in> set (fst (read_lines h self ls))"
      by (simp add: read_def)
    then show "instance_shape self y" by (rule read_lines_shape)
  qed
qed

theorem instances_have_shape_witness:
  "text_to_instance (init None None False)
     (str_list [''we'', ''used'', ''survey'', ''.'']) (str_list [''PRP'', ''VBD'', ''NN'', ''.''])
     (opt_str (Some ''METHODS'')) = Inr instance_methods \<and>
   instance_shape (init None None False) instance_methods \<and>
   instance_unlabelled \<in> set (fst (read sample_host (init None None False) ''train.jsonl'')) \<and>
   instance_shape (init None None False) instance_unlabelled"
proof -
  note run = sample_text_to_instance(1)
  have mem: "instance_unlabelled \<in> set (fst (read sample_host (init None None False) ''train.jsonl''))"
    by simp
  from run instances_have_shape [THEN conjunct1, of "init None None False"
      "str_list [''we'', ''used'', ''survey'', ''.'']" "str_list [''PRP'', ''VBD'', ''NN'', ''.'']"
      "opt_str (Some ''METHODS'')" instance_methods]
  have "instance_shape (init None None False) instance_methods" by blast
  moreover from mem instances_have_shape [THEN conjunct2, of sample_host "init None None False"
      "''train.jsonl''"]
  have "instance_shape (init None None False) instance_unlabelled" by blast
  ultimately show ?thesis using run mem by blast
qed

section \<open>Construction from configuration\<close>











end
